theory Spec2Isabelle
  imports Complex_Main "HOL-Library.Sublist" "HOL-Library.Multiset"
begin

section \<open>The file system seen by the scraper\<close>

text \<open>
  \<^verbatim>\<open>src/scrapers/fast-scraper.js\<close> works on three places below its working directory:
  \<^verbatim>\<open>./storage\<close>, \<^verbatim>\<open>./storage/request_queues/default\<close> and \<^verbatim>\<open>./scrapers/datasets\<close>.
  A path is the list of its segments below the working directory (the empty list is the
  working directory itself). The disk is an association list from paths to nodes; the order
  of the list is the order in which \<^verbatim>\<open>readdirSync\<close> reports entries, which the platform
  leaves open. Permissions and I/O faults are not part of the model: an operation fails only
  for the structural reasons written out below.
\<close>

type_synonym path = "string list"

datatype node = File string | Dir

type_synonym filesystem = "(path \<times> node) list"

datatype errno = ENOENT | ENOTDIR | EISDIR | EEXIST

definition lookup :: "filesystem \<Rightarrow> path \<Rightarrow> node option" where
  "lookup d p = (if p = [] then Some Dir else map_of d p)"

definition existsSync :: "filesystem \<Rightarrow> path \<Rightarrow> bool" where
  "existsSync d p = (lookup d p \<noteq> None)"

definition is_file :: "filesystem \<Rightarrow> path \<Rightarrow> bool" where
  "is_file d p = (case lookup d p of Some (File c) \<Rightarrow> True | _ \<Rightarrow> False)"

text \<open>The error of reaching a path that is not there: a regular file on the way is
  \<^verbatim>\<open>ENOTDIR\<close>, anything else \<^verbatim>\<open>ENOENT\<close>.\<close>

definition absent_errno :: "filesystem \<Rightarrow> path \<Rightarrow> errno" where
  "absent_errno d p = (if list_ex (is_file d) (prefixes p) then ENOTDIR else ENOENT)"

definition drop_entry :: "path \<Rightarrow> filesystem \<Rightarrow> filesystem" where
  "drop_entry p d = filter (\<lambda>(q, n). q \<noteq> p) d"

definition drop_tree :: "path \<Rightarrow> filesystem \<Rightarrow> filesystem" where
  "drop_tree p d = filter (\<lambda>(q, n). \<not> prefix p q) d"

definition put_entry :: "path \<Rightarrow> node \<Rightarrow> filesystem \<Rightarrow> filesystem" where
  "put_entry p n d = drop_entry p d @ [(p, n)]"

text \<open>\<^verbatim>\<open>fs.readdirSync(p)\<close>: the names of the entries directly below \<open>p\<close>.\<close>

definition readdirSync :: "filesystem \<Rightarrow> path \<Rightarrow> errno + string list" where
  "readdirSync d p =
     (case lookup d p of
        None \<Rightarrow> Inl (absent_errno d p)
      | Some (File c) \<Rightarrow> Inl ENOTDIR
      | Some Dir \<Rightarrow> Inr (map (\<lambda>(q, n). last q) (filter (\<lambda>(q, n). q \<noteq> [] \<and> butlast q = p) d)))"

text \<open>\<^verbatim>\<open>fs.readFileSync(p, 'utf8')\<close>.\<close>

definition readFileSync :: "filesystem \<Rightarrow> path \<Rightarrow> errno + string" where
  "readFileSync d p =
     (case lookup d p of
        None \<Rightarrow> Inl (absent_errno d p)
      | Some Dir \<Rightarrow> Inl EISDIR
      | Some (File c) \<Rightarrow> Inr c)"

text \<open>\<^verbatim>\<open>fs.unlinkSync(p)\<close>.\<close>

definition unlinkSync :: "filesystem \<Rightarrow> path \<Rightarrow> errno + filesystem" where
  "unlinkSync d p =
     (case lookup d p of
        None \<Rightarrow> Inl (absent_errno d p)
      | Some Dir \<Rightarrow> Inl EISDIR
      | Some (File c) \<Rightarrow> Inr (drop_entry p d))"

text \<open>\<^verbatim>\<open>fs.mkdirSync(p)\<close> without options: the parent has to be a directory already.\<close>

definition mkdirSync :: "filesystem \<Rightarrow> path \<Rightarrow> errno + filesystem" where
  "mkdirSync d p =
     (if existsSync d p then Inl EEXIST
      else case lookup d (butlast p) of
        None \<Rightarrow> Inl (absent_errno d p)
      | Some (File c) \<Rightarrow> Inl ENOTDIR
      | Some Dir \<Rightarrow> Inr (put_entry p Dir d))"

text \<open>\<^verbatim>\<open>fs.mkdirSync(p, { recursive: true })\<close>: every missing directory on the way is
  created; an existing directory is accepted; a regular file on the way (or at \<open>p\<close>) is an
  error.\<close>

fun mkdir_all :: "path list \<Rightarrow> filesystem \<Rightarrow> filesystem" where
  "mkdir_all [] d = d"
| "mkdir_all (q # qs) d = mkdir_all qs (if existsSync d q then d else put_entry q Dir d)"

definition mkdirSync_recursive :: "filesystem \<Rightarrow> path \<Rightarrow> errno + filesystem" where
  "mkdirSync_recursive d p =
     (if is_file d p then Inl EEXIST
      else if list_ex (is_file d) (prefixes p) then Inl ENOTDIR
      else Inr (mkdir_all (prefixes p) d))"

text \<open>\<^verbatim>\<open>fs.renameSync(p, q)\<close> for a regular file \<open>p\<close>, which is what the scraper moves (it has
  just read \<open>p\<close> with \<^verbatim>\<open>readFileSync\<close>): the parent of \<open>q\<close> has to be a directory, \<open>q\<close> must
  not be a directory, and a regular file already at \<open>q\<close> is replaced. A directory at \<open>p\<close> is
  outside what is modelled and reported as \<^verbatim>\<open>EISDIR\<close>.\<close>

definition renameSync :: "filesystem \<Rightarrow> path \<Rightarrow> path \<Rightarrow> errno + filesystem" where
  "renameSync d p q =
     (case lookup d p of
        None \<Rightarrow> Inl (absent_errno d p)
      | Some Dir \<Rightarrow> Inl EISDIR
      | Some (File c) \<Rightarrow>
          (case lookup d (butlast q) of
             None \<Rightarrow> Inl (absent_errno d q)
           | Some (File c') \<Rightarrow> Inl ENOTDIR
           | Some Dir \<Rightarrow>
               (if lookup d q = Some Dir then Inl EISDIR
                else if q = p then Inr d
                else Inr (put_entry q (File c) (drop_entry p d)))))"

text \<open>\<^verbatim>\<open>fs.rmSync(p, { recursive: true })\<close>: no \<^verbatim>\<open>force\<close> option, so a missing \<open>p\<close> throws.\<close>

definition rmSync_recursive :: "filesystem \<Rightarrow> path \<Rightarrow> errno + filesystem" where
  "rmSync_recursive d p =
     (case lookup d p of
        None \<Rightarrow> Inl (absent_errno d p)
      | Some n \<Rightarrow> Inr (drop_tree p d))"

text \<open>\<^verbatim>\<open>fs.writeFileSync(p, data)\<close>: creates the file or replaces its content.\<close>

definition writeFileSync :: "filesystem \<Rightarrow> path \<Rightarrow> string \<Rightarrow> errno + filesystem" where
  "writeFileSync d p c =
     (case lookup d p of
        Some Dir \<Rightarrow> Inl EISDIR
      | _ \<Rightarrow>
        (case lookup d (butlast p) of
           None \<Rightarrow> Inl (absent_errno d p)
         | Some (File c') \<Rightarrow> Inl ENOTDIR
         | Some Dir \<Rightarrow> Inr (put_entry p (File c) d)))"


section \<open>Paths\<close>

text \<open>\<^verbatim>\<open>path.join(dir, name)\<close> on POSIX: the name is split at \<^verbatim>\<open>/\<close>, empty and \<^verbatim>\<open>.\<close>
  segments are dropped and \<^verbatim>\<open>..\<close> climbs one level (it is kept when there is nothing left
  to climb).\<close>

fun split_slash :: "string \<Rightarrow> string list" where
  "split_slash [] = [[]]"
| "split_slash (c # cs) =
     (if c = CHR ''/'' then [] # split_slash cs
      else (case split_slash cs of [] \<Rightarrow> [[c]] | w # ws \<Rightarrow> (c # w) # ws))"

fun normalize :: "string list \<Rightarrow> path \<Rightarrow> path" where
  "normalize [] acc = acc"
| "normalize (s # ss) acc =
     (if s = [] \<or> s = ''.'' then normalize ss acc
      else if s = ''..'' \<and> acc \<noteq> [] \<and> last acc \<noteq> ''..'' then normalize ss (butlast acc)
      else normalize ss (acc @ [s]))"

definition path_join :: "path \<Rightarrow> string \<Rightarrow> path" where
  "path_join dir name = normalize (split_slash name) dir"

text \<open>\<^verbatim>\<open>path.extname\<close> and \<^verbatim>\<open>path.basename\<close> on a directory entry name (one segment, no
  separator): the extension starts at the last dot, unless that dot is the first character
  or the name is \<^verbatim>\<open>..\<close>; \<^verbatim>\<open>basename(name, ext)\<close> strips \<open>ext\<close> when the name ends with it.\<close>

definition last_dot :: "string \<Rightarrow> nat" where
  "last_dot name = length name - Suc (length (takeWhile (\<lambda>c. c \<noteq> CHR ''.'') (rev name)))"

definition path_extname :: "string \<Rightarrow> string" where
  "path_extname name =
     (if CHR ''.'' \<notin> set name \<or> last_dot name = 0 \<or> name = ''..'' then []
      else drop (last_dot name) name)"

definition path_basename :: "string \<Rightarrow> string \<Rightarrow> string" where
  "path_basename name ext =
     (if ext \<noteq> [] \<and> length ext \<le> length name then
        (if ext = name then []
         else if suffix ext name then take (length name - length ext) name
         else name)
      else name)"

text \<open>\<^verbatim>\<open>file.endsWith('.json')\<close> is \<^term>\<open>suffix ''.json'' file\<close>, and \<^verbatim>\<open>s.includes(t)\<close> on
  strings is \<^term>\<open>sublist t s\<close>.\<close>

definition directoryPath :: path where
  "directoryPath = [''storage'', ''request_queues'', ''default'']"

definition destinationPath :: path where
  "destinationPath = [''scrapers'', ''datasets'']"

definition storagePath :: path where
  "storagePath = [''storage'']"


section \<open>Values, exceptions and the console\<close>

text \<open>What \<^verbatim>\<open>JSON.parse\<close> can return. \<open>JObj\<close> lists an object's own properties, one pair per
  key; \<open>JNum\<close> carries the number, of which this program only asks whether it is zero.
  A property that is missing reads as \<^verbatim>\<open>undefined\<close>, written \<open>None\<close>.\<close>

datatype json =
    JNull
  | JBool bool
  | JNum real
  | JStr string
  | JArr "json list"
  | JObj "(string \<times> json) list"

datatype exn =
    Errno errno
  | SyntaxError
  | TypeError
  | FetchError string string

fun errno_name :: "errno \<Rightarrow> string" where
  "errno_name ENOENT = ''ENOENT''"
| "errno_name ENOTDIR = ''ENOTDIR''"
| "errno_name EISDIR = ''EISDIR''"
| "errno_name EEXIST = ''EEXIST''"

text \<open>\<^verbatim>\<open>err.message\<close> and \<^verbatim>\<open>err.stack\<close>. The platform's wording is not reproduced: a
  file-system error is rendered by its code.\<close>

fun message :: "exn \<Rightarrow> string" where
  "message (Errno e) = errno_name e"
| "message SyntaxError = ''SyntaxError''"
| "message TypeError = ''TypeError''"
| "message (FetchError m s) = m"

fun stack :: "exn \<Rightarrow> string" where
  "stack (FetchError m s) = s"
| "stack e = message e"

datatype level = LOG | WARN | ERROR | INFO

record request =
  url :: string
  userData_apiName :: string

record state =
  disk :: filesystem
  console :: "(level \<times> string) list"
  requests :: "request list"

definition emit :: "level \<Rightarrow> string \<Rightarrow> state \<Rightarrow> state" where
  "emit l m st = st\<lparr>console := console st @ [(l, m)]\<rparr>"

text \<open>A call either returns, or throws with the state it had reached.\<close>

datatype outcome = Returns state | Throws exn state


section \<open>Validation of a staged record\<close>

text \<open>Reading one of the properties \<^verbatim>\<open>apiName\<close>, \<^verbatim>\<open>url\<close>, \<^verbatim>\<open>title\<close>, \<^verbatim>\<open>content\<close> of a parsed
  value. Only an object can have them; on a string, a number, a boolean or an array they
  read as \<^verbatim>\<open>undefined\<close>; on \<^verbatim>\<open>null\<close> the access throws (see \<open>isInvalid\<close>).\<close>

fun property :: "json \<Rightarrow> string \<Rightarrow> json option" where
  "property (JObj kvs) k = map_of kvs k"
| "property v k = None"

text \<open>JavaScript truthiness, which is what \<^verbatim>\<open>!x\<close> and \<^verbatim>\<open>if (x)\<close> test.\<close>

fun truthy :: "json option \<Rightarrow> bool" where
  "truthy None = False"
| "truthy (Some JNull) = False"
| "truthy (Some (JBool b)) = b"
| "truthy (Some (JNum n)) = (n \<noteq> 0)"
| "truthy (Some (JStr s)) = (s \<noteq> [])"
| "truthy (Some (JArr xs)) = True"
| "truthy (Some (JObj kvs)) = True"

text \<open>\<^verbatim>\<open>v.includes(s)\<close>: substring search on a string, membership on an array, and a
  \<^verbatim>\<open>TypeError\<close> on anything else (there is no such method to call).\<close>

fun includes_of :: "json option \<Rightarrow> string \<Rightarrow> exn + bool" where
  "includes_of (Some (JStr t)) s = Inr (sublist s t)"
| "includes_of (Some (JArr xs)) s = Inr (JStr s \<in> set xs)"
| "includes_of v s = Inl TypeError"

text \<open>The condition of line 109:
  \<^verbatim>\<open>!data.apiName || !data.url || !data.title || !data.content || data.title.includes('404')\<close>.\<close>

definition isInvalid :: "json \<Rightarrow> exn + bool" where
  "isInvalid data =
     (if data = JNull then Inl TypeError
      else if \<not> truthy (property data ''apiName'') \<or> \<not> truthy (property data ''url'')
            \<or> \<not> truthy (property data ''title'') \<or> \<not> truthy (property data ''content'')
      then Inr True
      else includes_of (property data ''title'') ''404'')"


section \<open>The timestamp\<close>

record date =
  getMonth :: nat
  getDate :: nat
  getFullYear :: nat
  getHours :: nat
  getMinutes :: nat
  getSeconds :: nat

definition digit_char :: "nat \<Rightarrow> char" where
  "digit_char n = ''0123456789'' ! (n mod 10)"

text \<open>\<^verbatim>\<open>n.toString()\<close> of a natural number: its decimal digits.\<close>

function toString :: "nat \<Rightarrow> string" where
  "toString n = (if n < 10 then [digit_char n] else toString (n div 10) @ [digit_char n])"
  by pat_completeness auto
termination
  by (relation "measure id") auto

declare toString.simps [simp del]

definition padStart :: "nat \<Rightarrow> char \<Rightarrow> string \<Rightarrow> string" where
  "padStart k c s = replicate (k - length s) c @ s"

text \<open>\<^verbatim>\<open>s.slice(-2)\<close>: the last two characters, or all of a shorter string.\<close>

definition slice_last2 :: "string \<Rightarrow> string" where
  "slice_last2 s = drop (length s - 2) s"

definition generateTimestamp :: "date \<Rightarrow> string" where
  "generateTimestamp now =
     (let month = padStart 2 CHR ''0'' (toString (getMonth now + 1));
          day = padStart 2 CHR ''0'' (toString (getDate now));
          year = slice_last2 (toString (getFullYear now));
          hours = padStart 2 CHR ''0'' (toString (getHours now));
          minutes = padStart 2 CHR ''0'' (toString (getMinutes now));
          seconds = padStart 2 CHR ''0'' (toString (getSeconds now))
      in month @ day @ year @ hours @ minutes @ seconds)"


section \<open>cleanUpAndMoveFiles\<close>

text \<open>
  The body of the \<^verbatim>\<open>try\<close> block of lines 106 to 125 for one directory entry \<open>file\<close>.
  \<open>parse\<close> is \<^verbatim>\<open>JSON.parse\<close> (\<open>None\<close> when it throws its \<^verbatim>\<open>SyntaxError\<close>) and \<open>now\<close> is the
  clock reading that \<^verbatim>\<open>new Date()\<close> would give in this iteration. \<open>file\<close> is an entry name,
  so \<^verbatim>\<open>path.join(dir, file)\<close> appends it to the directory.
\<close>

definition tryFile :: "(string \<Rightarrow> json option) \<Rightarrow> date \<Rightarrow> string \<Rightarrow> state \<Rightarrow> outcome" where
  "tryFile parse now file st =
     (let filePath = directoryPath @ [file];
          destinationFilePath = destinationPath @ [file]
      in case readFileSync (disk st) filePath of
           Inl e \<Rightarrow> Throws (Errno e) st
         | Inr text \<Rightarrow>
             (case parse text of
                None \<Rightarrow> Throws SyntaxError st
              | Some data \<Rightarrow>
                  (case isInvalid data of
                     Inl e \<Rightarrow> Throws e st
                   | Inr True \<Rightarrow>
                       (let st1 = emit LOG (''Deleting invalid file: '' @ file) st
                        in case unlinkSync (disk st1) filePath of
                             Inl e \<Rightarrow> Throws (Errno e) st1
                           | Inr d \<Rightarrow> Returns (st1\<lparr>disk := d\<rparr>))
                   | Inr False \<Rightarrow>
                       (if existsSync (disk st) destinationFilePath then
                          (let extname = path_extname file;
                               basename = path_basename file extname;
                               timestamp = generateTimestamp now;
                               newFileName = basename @ ''_'' @ timestamp @ extname;
                               newFilePath = destinationPath @ [newFileName]
                           in case renameSync (disk st) filePath newFilePath of
                                Inl e \<Rightarrow> Throws (Errno e) st
                              | Inr d \<Rightarrow>
                                  Returns (emit LOG
                                    (''File with the same name exists. Moved and renamed: ''
                                       @ newFileName) (st\<lparr>disk := d\<rparr>)))
                        else
                          (case renameSync (disk st) filePath destinationFilePath of
                             Inl e \<Rightarrow> Throws (Errno e) st
                           | Inr d \<Rightarrow>
                               Returns (emit LOG (''Moved valid file: '' @ file)
                                 (st\<lparr>disk := d\<rparr>)))))))"

text \<open>One round of the \<^verbatim>\<open>forEach\<close> of line 101: entries not ending in \<^verbatim>\<open>.json\<close> are
  passed over; whatever the \<^verbatim>\<open>try\<close> block throws is caught and logged.\<close>

definition curateFile :: "(string \<Rightarrow> json option) \<Rightarrow> date \<Rightarrow> string \<Rightarrow> state \<Rightarrow> state" where
  "curateFile parse now file st =
     (if suffix ''.json'' file then
        (case tryFile parse now file st of
           Returns st' \<Rightarrow> st'
         | Throws e st' \<Rightarrow>
             emit ERROR (''Error reading or parsing file '' @ file @ '': '' @ message e) st')
      else st)"

text \<open>The \<^verbatim>\<open>forEach\<close> itself; \<open>clock i\<close> is the clock reading during round \<open>i\<close>.\<close>

fun curateFiles ::
  "(string \<Rightarrow> json option) \<Rightarrow> (nat \<Rightarrow> date) \<Rightarrow> nat \<Rightarrow> string list \<Rightarrow> state \<Rightarrow> state" where
  "curateFiles parse clock i [] st = st"
| "curateFiles parse clock i (file # files) st =
     curateFiles parse clock (Suc i) files (curateFile parse (clock i) file st)"

text \<open>The \<^verbatim>\<open>try\<close>/\<^verbatim>\<open>catch\<close> around \<^verbatim>\<open>fs.rmSync('./storage', { recursive: true })\<close>, with the
  message logged on success.\<close>

definition removeStorage :: "string \<Rightarrow> state \<Rightarrow> state" where
  "removeStorage msg st =
     (case rmSync_recursive (disk st) storagePath of
        Inr d \<Rightarrow> emit LOG msg (st\<lparr>disk := d\<rparr>)
      | Inl e \<Rightarrow> emit ERROR (''Error deleting the storage folder: '' @ message (Errno e)) st)"

text \<open>Lines 86 to 88: the datasets folder is created when it does not exist.\<close>

definition ensure_destination :: "filesystem \<Rightarrow> errno + filesystem" where
  "ensure_destination d =
     (if \<not> existsSync d destinationPath then mkdirSync_recursive d destinationPath else Inr d)"

definition cleanUpAndMoveFiles ::
  "(string \<Rightarrow> json option) \<Rightarrow> (nat \<Rightarrow> date) \<Rightarrow> bool \<Rightarrow> state \<Rightarrow> outcome" where
  "cleanUpAndMoveFiles parse clock removeStorageOnly st =
     (if removeStorageOnly then
        Returns (removeStorage
          ''Deleted the storage folder since no requests were enqueued.'' st)
      else
        (case ensure_destination (disk st) of
           Inl e \<Rightarrow> Throws (Errno e) st
         | Inr d \<Rightarrow>
             (let st1 = st\<lparr>disk := d\<rparr>
              in case readdirSync (disk st1) directoryPath of
                   Inl e \<Rightarrow> Throws (Errno e) st1
                 | Inr files \<Rightarrow>
                     Returns (removeStorage
                       ''Deleted the storage folder after moving valid files.''
                       (curateFiles parse clock 0 files st1)))))"


section \<open>canScrape and checkRobotsAndEnqueue\<close>

text \<open>
  What \<^verbatim>\<open>fetch\<close> gives for the policy resource of a documentation URL: a response with
  its \<^verbatim>\<open>ok\<close> flag and the result of \<^verbatim>\<open>response.text()\<close>, or a rejection. The network is a
  function of the documentation URL; it stands for lines 22 to 28, so a URL that
  \<^verbatim>\<open>new URL\<close> refuses is a rejection as well.
\<close>

datatype response = Response (ok: bool) (body_text: "exn + string")

datatype fetched = Resolved response | Rejected exn

type_synonym network = "string \<Rightarrow> fetched"

text \<open>The \<^verbatim>\<open>catch\<close> block of lines 35 to 37 logs and ends without a \<^verbatim>\<open>return\<close>: the
  function then yields \<^verbatim>\<open>undefined\<close>, written \<open>None\<close>.\<close>

definition canScrape_catch :: "string \<Rightarrow> exn \<Rightarrow> state \<Rightarrow> bool option \<times> state" where
  "canScrape_catch u err st =
     (None, emit ERROR (''Error checking robots.txt for '' @ u @ '': '' @ message err
                          @ '' '' @ stack err) st)"

definition canScrape :: "network \<Rightarrow> string \<Rightarrow> state \<Rightarrow> bool option \<times> state" where
  "canScrape net u st =
     (case net u of
        Rejected err \<Rightarrow> canScrape_catch u err st
      | Resolved response \<Rightarrow>
          (if ok response then
             (case body_text response of
                Inl err \<Rightarrow> canScrape_catch u err st
              | Inr robotsText \<Rightarrow> (Some (\<not> sublist ''Disallow: /'' robotsText), st))
           else
             (Some True,
              emit WARN (''Could not fetch robots.txt for '' @ u @ ''. Defaulting to allow.'') st)))"

text \<open>\<^verbatim>\<open>if (canScrapeResult)\<close>: only \<^verbatim>\<open>true\<close> passes; \<^verbatim>\<open>false\<close> and \<^verbatim>\<open>undefined\<close> do not.\<close>

definition truthy_result :: "bool option \<Rightarrow> bool" where
  "truthy_result r = (r = Some True)"

record api =
  API_Name :: string
  Official_Documentation_URL :: string

text \<open>The callback of lines 47 to 62 for one catalog row, from the moment its policy check
  has completed. Nothing is awaited after that moment, so the rest of the callback runs
  without another callback in between; the console lines of one row are kept together.\<close>

definition checkOne :: "network \<Rightarrow> api \<Rightarrow> nat \<times> state \<Rightarrow> nat \<times> state" where
  "checkOne net a acc =
     (let enqueuedCount = fst acc;
          (canScrapeResult, st1) = canScrape net (Official_Documentation_URL a) (snd acc)
      in if truthy_result canScrapeResult then
           (Suc enqueuedCount,
            emit LOG (''Enqueued: '' @ Official_Documentation_URL a)
              (st1\<lparr>requests := requests st1 @
                 [\<lparr>url = Official_Documentation_URL a, userData_apiName = API_Name a\<rparr>]\<rparr>))
         else
           (enqueuedCount,
            emit WARN (''Skipping '' @ Official_Documentation_URL a
                         @ '': Not allowed by robots.txt'') st1))"

text \<open>\<open>apis\<close> is the catalog in the order in which the policy checks complete; the limiter
  of line 43 decides that order and nothing else.\<close>

definition checkRobotsAndEnqueue :: "network \<Rightarrow> api list \<Rightarrow> state \<Rightarrow> nat \<times> state" where
  "checkRobotsAndEnqueue net apis st = fold (checkOne net) apis (0, st)"


section \<open>The request handlers and scrapeDocs\<close>

text \<open>\<^verbatim>\<open>apiName.replace(/ /g, '_')\<close>.\<close>

definition replace_spaces :: "string \<Rightarrow> string" where
  "replace_spaces s = map (\<lambda>c. if c = CHR '' '' then CHR ''_'' else c) s"

text \<open>The object handed to \<^verbatim>\<open>JSON.stringify\<close> in lines 156 to 161.\<close>

definition pageRecord :: "string \<Rightarrow> string \<Rightarrow> string \<Rightarrow> string \<Rightarrow> json" where
  "pageRecord a u t c =
     JObj [(''apiName'', JStr a), (''url'', JStr u), (''title'', JStr t), (''content'', JStr c)]"

text \<open>
  \<^verbatim>\<open>requestHandler\<close> (lines 146 to 164). \<open>title\<close> is \<^verbatim>\<open>$('title').text()\<close>, \<open>content\<close> is
  \<^verbatim>\<open>$('body').text().trim()\<close>, and \<open>stringify v\<close> is \<^verbatim>\<open>JSON.stringify(v, null, 2)\<close>.
\<close>

definition requestHandler ::
  "(json \<Rightarrow> string) \<Rightarrow> request \<Rightarrow> string \<Rightarrow> string \<Rightarrow> state \<Rightarrow> outcome" where
  "requestHandler stringify req title content st =
     (let apiNameFormatted = replace_spaces (userData_apiName req);
          datasetPath = path_join directoryPath (apiNameFormatted @ ''.json'')
      in case (if \<not> existsSync (disk st) directoryPath
               then mkdirSync (disk st) directoryPath
               else Inr (disk st)) of
           Inl e \<Rightarrow> Throws (Errno e) st
         | Inr d \<Rightarrow>
             (case writeFileSync d datasetPath
                     (stringify (pageRecord (userData_apiName req) (url req) title content)) of
                Inl e \<Rightarrow> Throws (Errno e) (st\<lparr>disk := d\<rparr>)
              | Inr d' \<Rightarrow> Returns (emit INFO (''Scraped: '' @ url req) (st\<lparr>disk := d'\<rparr>))))"

definition failedRequestHandler :: "request \<Rightarrow> exn \<Rightarrow> state \<Rightarrow> state" where
  "failedRequestHandler req err st =
     emit ERROR (''Failed to scrape '' @ url req @ '': '' @ message err) st"

text \<open>
  The crawl engine is not part of this repository. \<open>scrapeDocs\<close> takes its \<^verbatim>\<open>run()\<close> as a
  parameter, any function of the state that returns or throws. \<open>crawler_run\<close> is the engine
  in its simplest form: every registered request settles once, in the order of
  registration, with the page the web gives for it or with an error.
\<close>

fun crawler_run ::
  "(json \<Rightarrow> string) \<Rightarrow> (request \<Rightarrow> exn + string \<times> string) \<Rightarrow> request list \<Rightarrow> state \<Rightarrow> state" where
  "crawler_run stringify web [] st = st"
| "crawler_run stringify web (req # reqs) st =
     crawler_run stringify web reqs
       (case web req of
          Inl err \<Rightarrow> failedRequestHandler req err st
        | Inr (title, content) \<Rightarrow>
            (case requestHandler stringify req title content st of
               Returns st' \<Rightarrow> st'
             | Throws e st' \<Rightarrow> failedRequestHandler req e st'))"

text \<open>\<^verbatim>\<open>scrapeDocs\<close> (lines 141 to 183). \<open>csv\<close> is what \<^verbatim>\<open>parseCSV\<close> resolves to, or the error
  it rejects with; the rows are taken in the order in which their policy checks complete,
  the only use of the catalog besides its length.\<close>

definition scrapeDocs ::
  "network \<Rightarrow> (string \<Rightarrow> json option) \<Rightarrow> (nat \<Rightarrow> date) \<Rightarrow> (state \<Rightarrow> outcome)
     \<Rightarrow> exn + api list \<Rightarrow> state \<Rightarrow> outcome" where
  "scrapeDocs net parse clock run csv st =
     (case csv of
        Inl e \<Rightarrow> Throws e st
      | Inr apis \<Rightarrow>
          (let st1 = emit LOG (''Loaded '' @ toString (length apis) @ '' API URLs.'') st;
               (enqueuedCount, st2) = checkRobotsAndEnqueue net apis st1
           in if enqueuedCount = 0 then
                cleanUpAndMoveFiles parse clock True
                  (emit LOG ''No requests were enqueued. Cleaning up the storage folder.'' st2)
              else
                (case run st2 of
                   Throws e st3 \<Rightarrow> Throws e st3
                 | Returns st3 \<Rightarrow> cleanUpAndMoveFiles parse clock False st3)))"


section \<open>Auxiliary notions for the statements\<close>

text \<open>A disk is well formed when every entry sits in a directory.\<close>

definition well_formed :: "filesystem \<Rightarrow> bool" where
  "well_formed d = list_all (\<lambda>(p, n). lookup d (butlast p) = Some Dir) d"

definition state0 :: state where
  "state0 = \<lparr>disk = [], console = [], requests = []\<rparr>"

text \<open>The decision taken for a catalog row: whether the \<^verbatim>\<open>if\<close> of line 51 passes. The value
  \<open>canScrape\<close> returns does not depend on the state it is run in (lemma \<open>canScrape_fst\<close>).\<close>

definition policy_allows :: "network \<Rightarrow> api \<Rightarrow> bool" where
  "policy_allows net a =
     truthy_result (fst (canScrape net (Official_Documentation_URL a) state0))"

text \<open>The request of lines 53 to 56 for a catalog row.\<close>

definition task :: "api \<Rightarrow> request" where
  "task a = \<lparr>url = Official_Documentation_URL a, userData_apiName = API_Name a\<rparr>"


text \<open>The state an outcome carries.\<close>

fun state_of :: "outcome \<Rightarrow> state" where
  "state_of (Returns s) = s"
| "state_of (Throws e s) = s"


text \<open>What the \<^verbatim>\<open>try\<close> block throws on a staged content that does not read as a record:
  the \<^verbatim>\<open>SyntaxError\<close> of \<^verbatim>\<open>JSON.parse\<close>, or the \<^verbatim>\<open>TypeError\<close> of the test of line 109 on a
  value that is not shaped like a record.\<close>

definition read_error :: "(string \<Rightarrow> json option) \<Rightarrow> string \<Rightarrow> exn option" where
  "read_error parse c =
     (case parse c of
        None \<Rightarrow> Some SyntaxError
      | Some data \<Rightarrow> (case isInvalid data of Inl e \<Rightarrow> Some e | Inr b \<Rightarrow> None))"











section \<open>Concrete inputs\<close>

text \<open>A network on which the first site disallows everything and every other site allows
  everything; one on which every fetch is rejected; one on which every policy resource is
  answered with a non-success status.\<close>

definition net2 :: network where
  "net2 u = (if u = ''https://a.example/docs''
             then Resolved (Response True (Inr ''User-agent: *\<newline>Disallow: /''))
             else Resolved (Response True (Inr ''User-agent: *\<newline>Allow: /docs'')))"

definition net_down :: network where
  "net_down u = Rejected (FetchError ''fetch failed'' ''TypeError: fetch failed'')"

definition net_404 :: network where
  "net_404 u = Resolved (Response False (Inr ''Not Found''))"

definition apiA :: api where
  "apiA = \<lparr>API_Name = ''A API'', Official_Documentation_URL = ''https://a.example/docs''\<rparr>"

definition apiB :: api where
  "apiB = \<lparr>API_Name = ''Stripe API'', Official_Documentation_URL = ''https://stripe.com/docs''\<rparr>"


text \<open>A toy \<^verbatim>\<open>JSON.parse\<close> and \<^verbatim>\<open>JSON.stringify\<close> that know two records, a clock that
  always reads 2 November 2026, 09:05:07, a web on which every page is the Stripe page, and
  the engine \<open>crawler_run\<close> on that web.\<close>

definition parse0 :: "string \<Rightarrow> json option" where
  "parse0 s =
     (if s = ''{stripe}'' then
        Some (pageRecord ''Stripe API'' ''https://stripe.com/docs'' ''Stripe Docs'' ''Welcome'')
      else if s = ''{gone}'' then
        Some (pageRecord ''Gone API'' ''https://gone.example/docs'' ''404 Not Found'' ''Oops'')
      else None)"

definition stringify0 :: "json \<Rightarrow> string" where
  "stringify0 v =
     (if v = pageRecord ''Stripe API'' ''https://stripe.com/docs'' ''Stripe Docs'' ''Welcome''
      then ''{stripe}''
      else if v = pageRecord ''Gone API'' ''https://gone.example/docs'' ''404 Not Found'' ''Oops''
      then ''{gone}''
      else ''{}'')"

definition clock0 :: "nat \<Rightarrow> date" where
  "clock0 i = \<lparr>getMonth = 10, getDate = 2, getFullYear = 2026,
               getHours = 9, getMinutes = 5, getSeconds = 7\<rparr>"

definition web0 :: "request \<Rightarrow> exn + string \<times> string" where
  "web0 req = Inr (''Stripe Docs'', ''Welcome'')"

definition run0 :: "state \<Rightarrow> outcome" where
  "run0 s = Returns (crawler_run stringify0 web0 (requests s) s)"

definition disk0 :: filesystem where
  "disk0 =
     [([''storage''], Dir),
      ([''storage'', ''request_queues''], Dir),
      ([''storage'', ''request_queues'', ''default''], Dir),
      ([''storage'', ''request_queues'', ''default'', ''Stripe_API.json''], File ''{stripe}''),
      ([''storage'', ''request_queues'', ''default'', ''Gone_API.json''], File ''{gone}''),
      ([''storage'', ''request_queues'', ''default'', ''broken.json''], File ''not json''),
      ([''storage'', ''request_queues'', ''default'', ''notes.txt''], File ''hello''),
      ([''scrapers''], Dir),
      ([''scrapers'', ''datasets''], Dir),
      ([''scrapers'', ''datasets'', ''Stripe_API.json''], File ''{old}'')]"

definition disk1 :: filesystem where
  "disk1 =
     [([''storage''], Dir),
      ([''storage'', ''request_queues''], Dir),
      ([''scrapers''], Dir),
      ([''scrapers'', ''datasets''], Dir),
      ([''scrapers'', ''datasets'', ''Stripe_API.json''], File ''{old}'')]"

definition st0 :: state where
  "st0 = \<lparr>disk = disk0, console = [], requests = []\<rparr>"

definition st1 :: state where
  "st1 = \<lparr>disk = disk1, console = [], requests = []\<rparr>"





section \<open>Facts about the file system\<close>

lemma map_of_filter_key:
  "map_of (filter (\<lambda>(q, n). P q) d) x = (if P x then map_of d x else None)"
  by (induction d) auto

lemma lookup_root [simp]: "lookup d [] = Some Dir"
  by (simp add: lookup_def)

lemma lookup_drop_entry:
  "q \<noteq> [] \<Longrightarrow> lookup (drop_entry p d) q = (if q = p then None else lookup d q)"
  by (simp add: lookup_def drop_entry_def map_of_filter_key)

lemma lookup_drop_tree:
  "q \<noteq> [] \<Longrightarrow> lookup (drop_tree p d) q = (if prefix p q then None else lookup d q)"
  by (simp add: lookup_def drop_tree_def map_of_filter_key)

lemma lookup_put_entry:
  "p \<noteq> [] \<Longrightarrow> lookup (put_entry p n d) q = (if q = p then Some n else lookup d q)"
  by (auto simp add: lookup_def put_entry_def drop_entry_def map_of_filter_key map_add_def
      split: option.splits)

lemma well_formed_parent:
  assumes "well_formed d" and "lookup d q \<noteq> None"
  shows "lookup d (butlast q) = Some Dir"
proof (cases "q = []")
  case True
  then show ?thesis by simp
next
  case False
  then obtain n where "map_of d q = Some n"
    using assms(2) by (auto simp add: lookup_def)
  then have "(q, n) \<in> set d" by (rule map_of_SomeD)
  then show ?thesis
    using assms(1) by (auto simp add: well_formed_def list_all_iff)
qed

lemma well_formedI:
  assumes "\<And>q n. (q, n) \<in> set d \<Longrightarrow> lookup d (butlast q) = Some Dir"
  shows "well_formed d"
  using assms by (auto simp add: well_formed_def list_all_iff)

lemma well_formedD:
  "well_formed d \<Longrightarrow> (q, n) \<in> set d \<Longrightarrow> lookup d (butlast q) = Some Dir"
  by (auto simp add: well_formed_def list_all_iff)

lemma well_formed_above:
  assumes "well_formed d" and "lookup d (p @ r) \<noteq> None"
  shows "lookup d p \<noteq> None"
  using assms(2)
proof (induction r rule: rev_induct)
  case Nil
  then show ?case by simp
next
  case (snoc x r)
  have "lookup d (butlast (p @ r @ [x])) = Some Dir"
    using well_formed_parent [OF assms(1) snoc.prems] .
  then have "lookup d (p @ r) \<noteq> None"
    by (simp add: butlast_append)
  then show ?case by (rule snoc.IH)
qed

lemma well_formed_drop_tree:
  assumes "well_formed d"
  shows "well_formed (drop_tree p d)"
proof (rule well_formedI)
  fix q n assume "(q, n) \<in> set (drop_tree p d)"
  then have in_d: "(q, n) \<in> set d" and np: "\<not> prefix p q"
    by (auto simp add: drop_tree_def)
  have par: "lookup d (butlast q) = Some Dir"
    using well_formedD [OF assms in_d] .
  have "\<not> prefix p (butlast q)"
    using np by (metis prefix_order.trans prefixeq_butlast)
  then show "lookup (drop_tree p d) (butlast q) = Some Dir"
    using par by (cases "butlast q = []") (simp_all add: lookup_drop_tree)
qed

lemma well_formed_drop_entry:
  assumes "well_formed d" and "lookup d p \<noteq> Some Dir"
  shows "well_formed (drop_entry p d)"
proof (rule well_formedI)
  fix q n assume "(q, n) \<in> set (drop_entry p d)"
  then have in_d: "(q, n) \<in> set d"
    by (auto simp add: drop_entry_def)
  have par: "lookup d (butlast q) = Some Dir"
    using well_formedD [OF assms(1) in_d] .
  then have "butlast q \<noteq> p" using assms(2) by auto
  then show "lookup (drop_entry p d) (butlast q) = Some Dir"
    using par by (cases "butlast q = []") (simp_all add: lookup_drop_entry)
qed

lemma well_formed_put_entry:
  assumes "well_formed d" and "p \<noteq> []" and "lookup d (butlast p) = Some Dir"
    and "lookup d p \<noteq> Some Dir \<or> n = Dir"
  shows "well_formed (put_entry p n d)"
proof (rule well_formedI)
  fix q m assume "(q, m) \<in> set (put_entry p n d)"
  then consider "(q, m) \<in> set d" | "q = p"
    by (auto simp add: put_entry_def drop_entry_def)
  then have par: "lookup d (butlast q) = Some Dir"
    using well_formedD [OF assms(1)] assms(3) by cases auto
  show "lookup (put_entry p n d) (butlast q) = Some Dir"
    using par assms(2,4) by (auto simp add: lookup_put_entry)
qed


section \<open>The policy gate and the enqueue step\<close>

lemma canScrape_fst: "fst (canScrape net u st) = fst (canScrape net u st')"
  by (simp add: canScrape_def canScrape_catch_def split: fetched.splits sum.splits)

lemma canScrape_requests: "requests (snd (canScrape net u st)) = requests st"
  by (simp add: canScrape_def canScrape_catch_def emit_def split: fetched.splits sum.splits)

lemma canScrape_disk: "disk (snd (canScrape net u st)) = disk st"
  by (simp add: canScrape_def canScrape_catch_def emit_def split: fetched.splits sum.splits)

lemma checkOne_count:
  "fst (checkOne net a (n, st)) = (if policy_allows net a then Suc n else n)"
proof -
  obtain r st1 where c: "canScrape net (Official_Documentation_URL a) st = (r, st1)"
    by (cases "canScrape net (Official_Documentation_URL a) st")
  have "fst (canScrape net (Official_Documentation_URL a) state0) = r"
    using canScrape_fst [of net "Official_Documentation_URL a" state0 st] c by simp
  then show ?thesis
    using c by (simp add: checkOne_def policy_allows_def Let_def)
qed

lemma checkOne_requests:
  "requests (snd (checkOne net a (n, st))) =
     requests st @ (if policy_allows net a then [task a] else [])"
proof -
  obtain r st1 where c: "canScrape net (Official_Documentation_URL a) st = (r, st1)"
    by (cases "canScrape net (Official_Documentation_URL a) st")
  have "fst (canScrape net (Official_Documentation_URL a) state0) = r"
    using canScrape_fst [of net "Official_Documentation_URL a" state0 st] c by simp
  moreover have "requests st1 = requests st"
    using canScrape_requests [of net "Official_Documentation_URL a" st] c by simp
  ultimately show ?thesis
    using c by (simp add: checkOne_def policy_allows_def task_def emit_def Let_def)
qed

lemma checkOne_disk: "disk (snd (checkOne net a acc)) = disk (snd acc)"
proof -
  obtain r st1 where c: "canScrape net (Official_Documentation_URL a) (snd acc) = (r, st1)"
    by (cases "canScrape net (Official_Documentation_URL a) (snd acc)")
  have "disk st1 = disk (snd acc)"
    using canScrape_disk [of net "Official_Documentation_URL a" "snd acc"] c by simp
  then show ?thesis
    using c by (simp add: checkOne_def emit_def Let_def)
qed

lemma fold_checkOne:
  "fst (fold (checkOne net) as (n, st)) = n + length (filter (policy_allows net) as) \<and>
   requests (snd (fold (checkOne net) as (n, st))) =
     requests st @ map task (filter (policy_allows net) as)"
proof (induction as arbitrary: n st)
  case Nil
  show ?case by simp
next
  case (Cons a as)
  obtain n' st' where step: "checkOne net a (n, st) = (n', st')"
    by (cases "checkOne net a (n, st)")
  have n': "n' = (if policy_allows net a then Suc n else n)"
    using checkOne_count [of net a n st] step by simp
  have r': "requests st' = requests st @ (if policy_allows net a then [task a] else [])"
    using checkOne_requests [of net a n st] step by simp
  show ?case
    using Cons.IH [of n' st'] step n' r' by simp
qed

lemma fold_checkOne_disk: "disk (snd (fold (checkOne net) as acc)) = disk (snd acc)"
  by (induction as arbitrary: acc) (simp_all add: checkOne_disk)

lemma filter_length_mset:
  assumes "mset xs = mset ys"
  shows "length (filter P xs) = length (filter P ys)"
proof -
  have "size (filter_mset P (mset xs)) = size (filter_mset P (mset ys))"
    using assms by simp
  then show ?thesis by (simp only: mset_filter [symmetric] size_mset)
qed

lemma policy_allows_apiA: "policy_allows net2 apiA = False"
  by (simp add: policy_allows_def net2_def apiA_def canScrape_def truthy_result_def sublist_code)

lemma policy_allows_apiB: "policy_allows net2 apiB = True"
  by (simp add: policy_allows_def net2_def apiB_def canScrape_def truthy_result_def sublist_code)

text \<open>
  C5. Whatever the order in which the policy checks complete (\<open>order\<close> is any arrangement
  of the catalog \<open>apis\<close>), \<open>checkRobotsAndEnqueue\<close> returns the number of rows whose check
  passes, and the requests it registers are, one for one, the rows that pass, each carrying
  the row's URL and its API name; a row that does not pass adds nothing.
\<close>

theorem enqueue_allowed_entries:
  assumes "mset order = mset apis"
  shows "fst (checkRobotsAndEnqueue net order st) = length (filter (policy_allows net) apis)
       \<and> requests (snd (checkRobotsAndEnqueue net order st))
           = requests st @ map task (filter (policy_allows net) order)
       \<and> mset (map task (filter (policy_allows net) order))
           = image_mset task (filter_mset (policy_allows net) (mset apis))"
proof -
  have "mset (map task (filter (policy_allows net) order))
          = image_mset task (filter_mset (policy_allows net) (mset order))"
    by simp
  then show ?thesis
    using fold_checkOne [of net order 0 st] filter_length_mset [OF assms, of "policy_allows net"]
      assms
    by (simp add: checkRobotsAndEnqueue_def)
qed

text \<open>The catalog of two rows, the first disallowed and the second allowed, with the
  second check completing first: the count is 1 and the one request is that of the second
  row.\<close>

theorem enqueue_allowed_entries_witness:
  "mset [apiB, apiA] = mset [apiA, apiB]
   \<and> fst (checkRobotsAndEnqueue net2 [apiB, apiA] state0) = 1
   \<and> requests (snd (checkRobotsAndEnqueue net2 [apiB, apiA] state0))
       = [\<lparr>url = ''https://stripe.com/docs'', userData_apiName = ''Stripe API''\<rparr>]"
proof -
  have perm: "mset [apiB, apiA] = mset [apiA, apiB]" by simp
  have t: "task apiB = \<lparr>url = ''https://stripe.com/docs'', userData_apiName = ''Stripe API''\<rparr>"
    by (simp add: task_def apiB_def)
  have r: "requests state0 = []"
    by (simp add: state0_def)
  have "fst (checkRobotsAndEnqueue net2 [apiB, apiA] state0)
          = length (filter (policy_allows net2) [apiA, apiB])"
    and "requests (snd (checkRobotsAndEnqueue net2 [apiB, apiA] state0))
          = requests state0 @ map task (filter (policy_allows net2) [apiB, apiA])"
    using enqueue_allowed_entries [OF perm, of net2 state0] by blast+
  then show ?thesis
    by (simp add: policy_allows_apiA policy_allows_apiB t r)
qed

lemma canScrape_response:
  "net u = Resolved (Response k (Inr robotsText)) \<Longrightarrow>
     fst (canScrape net u st) = Some (\<not> (k \<and> sublist ''Disallow: /'' robotsText))"
  by (simp add: canScrape_def)

lemma canScrape_rejected:
  "net u = Rejected err \<Longrightarrow> fst (canScrape net u st) = None"
  by (simp add: canScrape_def canScrape_catch_def)

text \<open>
  C2. A fetch of the policy resource that is rejected is caught and logged and nothing is
  thrown, but \<open>canScrape\<close> then ends without a value: the row is skipped and the count stays
  0, while the same row on a network that answers with a non-success status is enqueued.
\<close>

theorem rejected_fetch_is_skipped:
  "checkRobotsAndEnqueue net_down [apiB] state0 =
     (0, \<lparr>disk = [],
          console =
            [(ERROR, ''Error checking robots.txt for https://stripe.com/docs: fetch failed TypeError: fetch failed''),
             (WARN, ''Skipping https://stripe.com/docs: Not allowed by robots.txt'')],
          requests = []\<rparr>)
   \<and> fst (checkRobotsAndEnqueue net_404 [apiB] state0) = 1"
  by (simp add: checkRobotsAndEnqueue_def checkOne_def canScrape_def canScrape_catch_def
      net_down_def net_404_def apiB_def state0_def emit_def truthy_result_def)

text \<open>
  C6. On a policy resource that cannot be reached (the fetch is rejected), \<open>canScrape\<close>
  returns neither allow nor deny but no value at all, which the test of line 51 does not
  let pass; a non-success status gives allow.
\<close>

theorem canScrape_unreachable_no_value:
  "fst (canScrape net_down ''https://stripe.com/docs'' state0) = None
   \<and> \<not> truthy_result (fst (canScrape net_down ''https://stripe.com/docs'' state0))
   \<and> fst (canScrape net_404 ''https://stripe.com/docs'' state0) = Some True"
  by (simp add: canScrape_def canScrape_catch_def net_down_def net_404_def truthy_result_def)

section \<open>Operations keep the disk well formed\<close>

lemma unlinkSync_well_formed:
  assumes "well_formed d" and "unlinkSync d p = Inr d'"
  shows "well_formed d'"
proof -
  have "lookup d p \<noteq> Some Dir" and "d' = drop_entry p d"
    using assms(2) by (auto simp add: unlinkSync_def split: option.splits node.splits)
  then show ?thesis
    using well_formed_drop_entry [OF assms(1)] by simp
qed

lemma renameSync_well_formed:
  assumes "well_formed d" and "renameSync d p q = Inr d'"
  shows "well_formed d'"
proof -
  obtain c where p: "lookup d p = Some (File c)"
    using assms(2) by (auto simp add: renameSync_def split: option.splits node.splits)
  have par: "lookup d (butlast q) = Some Dir"
    using assms(2) p by (auto simp add: renameSync_def split: option.splits node.splits)
  have q: "lookup d q \<noteq> Some Dir"
    using assms(2) p par by (auto simp add: renameSync_def split: if_splits)
  then have qne: "q \<noteq> []" by auto
  show ?thesis
  proof (cases "q = p")
    case True
    then show ?thesis using assms p par q by (simp add: renameSync_def)
  next
    case False
    have d': "d' = put_entry q (File c) (drop_entry p d)"
      using assms(2) p par q False by (simp add: renameSync_def)
    have w1: "well_formed (drop_entry p d)"
      using well_formed_drop_entry [OF assms(1)] p by simp
    have "butlast q \<noteq> p" using p par by auto
    then have par': "lookup (drop_entry p d) (butlast q) = Some Dir"
      using par by (cases "butlast q = []") (simp_all add: lookup_drop_entry)
    have q': "lookup (drop_entry p d) q \<noteq> Some Dir"
      using q qne by (simp add: lookup_drop_entry)
    show ?thesis
      unfolding d' using well_formed_put_entry [OF w1 qne par'] q' by simp
  qed
qed



lemma rmSync_recursive_well_formed:
  assumes "well_formed d" and "rmSync_recursive d p = Inr d'"
  shows "well_formed d'"
  using assms well_formed_drop_tree
  by (auto simp add: rmSync_recursive_def split: option.splits)

lemma mkdir_all_append: "mkdir_all (xs @ ys) d = mkdir_all ys (mkdir_all xs d)"
  by (induction xs arbitrary: d) simp_all

lemma lookup_mkdir_step:
  "lookup (if existsSync d q then d else put_entry q Dir d) r =
     (if r = q \<and> lookup d q = None then Some Dir else lookup d r)"
  by (cases "q = []") (auto simp add: existsSync_def lookup_put_entry)

lemma lookup_mkdir_all:
  "lookup (mkdir_all qs d) r =
     (if r \<in> set qs \<and> lookup d r = None then Some Dir else lookup d r)"
proof (induction qs arbitrary: d)
  case Nil
  show ?case by simp
next
  case (Cons q qs)
  show ?case
    by (auto simp add: Cons.IH lookup_mkdir_step)
qed


lemma is_file_lookup: "is_file d p = (\<exists>c. lookup d p = Some (File c))"
  by (auto simp add: is_file_def split: option.splits node.splits)

lemma mkdir_all_prefixes:
  assumes "well_formed d" and "\<not> list_ex (is_file d) (prefixes p)"
  shows "well_formed (mkdir_all (prefixes p) d) \<and> lookup (mkdir_all (prefixes p) d) p = Some Dir"
  using assms(2)
proof (induction p rule: rev_induct)
  case Nil
  show ?case using assms(1) by (simp add: existsSync_def)
next
  case (snoc x p)
  let ?d1 = "mkdir_all (prefixes p) d"
  have nf: "\<not> list_ex (is_file d) (prefixes p)" and nfx: "\<not> is_file d (p @ [x])"
    using snoc.prems by simp_all
  have w1: "well_formed ?d1" and l1: "lookup ?d1 p = Some Dir"
    using snoc.IH [OF nf] by simp_all
  have unfold: "mkdir_all (prefixes (p @ [x])) d =
      (if existsSync ?d1 (p @ [x]) then ?d1 else put_entry (p @ [x]) Dir ?d1)"
    by (simp add: mkdir_all_append)
  have look: "lookup (mkdir_all (prefixes (p @ [x])) d) (p @ [x]) = Some Dir"
    using nfx by (cases "lookup d (p @ [x])") (auto simp add: lookup_mkdir_all is_file_lookup
        simp del: prefixes_snoc, (metis node.exhaust)?)
  have "well_formed (mkdir_all (prefixes (p @ [x])) d)"
    unfolding unfold
    using w1 well_formed_put_entry [OF w1, of "p @ [x]" Dir] l1 by simp
  then show ?case using look by simp
qed

lemma mkdirSync_recursive_well_formed:
  assumes "well_formed d" and "mkdirSync_recursive d p = Inr d'"
  shows "well_formed d'"
  using assms mkdir_all_prefixes [of d p]
  by (auto simp add: mkdirSync_recursive_def split: if_splits)


section \<open>The effect of curation on the disk\<close>

lemma disk_emit [simp]: "disk (emit l m st) = disk st"
  by (simp add: emit_def)

lemma requests_emit [simp]: "requests (emit l m st) = requests st"
  by (simp add: emit_def)

lemma console_emit [simp]: "console (emit l m st) = console st @ [(l, m)]"
  by (simp add: emit_def)


lemma readFileSync_Inr: "readFileSync d p = Inr c \<longleftrightarrow> lookup d p = Some (File c)"
  by (auto simp add: readFileSync_def split: option.splits node.splits)

lemma unlinkSync_file: "lookup d p = Some (File c) \<Longrightarrow> unlinkSync d p = Inr (drop_entry p d)"
  by (simp add: unlinkSync_def)

lemma tryFile_disk_cases:
  "disk (state_of (tryFile parse now file st)) = disk st
   \<or> (\<exists>c. lookup (disk st) (directoryPath @ [file]) = Some (File c)
          \<and> disk (state_of (tryFile parse now file st))
              = drop_entry (directoryPath @ [file]) (disk st))
   \<or> (\<exists>x. renameSync (disk st) (directoryPath @ [file]) (destinationPath @ [x])
              = Inr (disk (state_of (tryFile parse now file st))))"
proof (cases "readFileSync (disk st) (directoryPath @ [file])")
  case (Inl e)
  then show ?thesis by (simp add: tryFile_def)
next
  case (Inr contents)
  note rd = this
  show ?thesis
  proof (cases "parse contents")
    case None
    then show ?thesis using rd by (simp add: tryFile_def)
  next
    case (Some data)
    note ps = this
    show ?thesis
    proof (cases "isInvalid data")
      case (Inl e)
      then show ?thesis using rd ps by (simp add: tryFile_def)
    next
      case (Inr b)
      note inv = this
      show ?thesis
      proof (cases b)
        case True
        have "lookup (disk st) (directoryPath @ [file]) = Some (File contents)"
          using rd by (simp add: readFileSync_Inr)
        then show ?thesis
          using rd ps inv True by (simp add: tryFile_def Let_def unlinkSync_file)
      next
        case False
        note valid = this
        show ?thesis
        proof (cases "existsSync (disk st) (destinationPath @ [file])")
          case True
          let ?x = "path_basename file (path_extname file) @ ''_'' @ generateTimestamp now
                      @ path_extname file"
          show ?thesis
          proof (cases "renameSync (disk st) (directoryPath @ [file]) (destinationPath @ [?x])")
            case (Inl e)
            then show ?thesis
              using rd ps inv valid True by (simp add: tryFile_def Let_def)
          next
            case (Inr d')
            then have "disk (state_of (tryFile parse now file st)) = d'"
              using rd ps inv valid True by (simp add: tryFile_def Let_def)
            then show ?thesis using Inr by blast
          qed
        next
          case False
          show ?thesis
          proof (cases "renameSync (disk st) (directoryPath @ [file]) (destinationPath @ [file])")
            case (Inl e)
            then show ?thesis
              using rd ps inv valid False by (simp add: tryFile_def Let_def)
          next
            case (Inr d')
            then have "disk (state_of (tryFile parse now file st)) = d'"
              using rd ps inv valid False by (simp add: tryFile_def Let_def)
            then show ?thesis using Inr by blast
          qed
        qed
      qed
    qed
  qed
qed

lemma curateFile_disk:
  "disk (curateFile parse now file st) =
     (if suffix ''.json'' file then disk (state_of (tryFile parse now file st)) else disk st)"
  by (cases "tryFile parse now file st") (simp_all add: curateFile_def)

lemma tryFile_well_formed:
  assumes "well_formed (disk st)"
  shows "well_formed (disk (state_of (tryFile parse now file st)))"
  using tryFile_disk_cases [of parse now "file" st] assms
    well_formed_drop_entry [OF assms, of "directoryPath @ [file]"]
    renameSync_well_formed [OF assms]
  by auto

lemma curateFile_well_formed:
  assumes "well_formed (disk st)"
  shows "well_formed (disk (curateFile parse now file st))"
  using tryFile_well_formed [OF assms] assms by (simp add: curateFile_disk)

lemma curateFiles_well_formed:
  "well_formed (disk st) \<Longrightarrow> well_formed (disk (curateFiles parse clock i files st))"
  by (induction files arbitrary: i st) (simp_all add: curateFile_well_formed)

lemma removeStorage_well_formed:
  "well_formed (disk st) \<Longrightarrow> well_formed (disk (removeStorage msg st))"
  using rmSync_recursive_well_formed
  by (auto simp add: removeStorage_def split: sum.splits)

lemma removeStorage_gone:
  assumes "well_formed (disk st)" and "prefix storagePath q"
  shows "lookup (disk (removeStorage msg st)) q = None"
proof (cases "rmSync_recursive (disk st) storagePath")
  case (Inl e)
  then have none: "lookup (disk st) storagePath = None"
    by (auto simp add: rmSync_recursive_def split: option.splits)
  obtain r where q: "q = storagePath @ r"
    using assms(2) by (auto simp add: prefix_def)
  have "lookup (disk st) q = None"
  proof (rule ccontr)
    assume "lookup (disk st) q \<noteq> None"
    then have "lookup (disk st) storagePath \<noteq> None"
      using well_formed_above [OF assms(1), of storagePath r] q by simp
    then show False using none by simp
  qed
  then show ?thesis using Inl by (simp add: removeStorage_def)
next
  case (Inr d)
  then have d: "d = drop_tree storagePath (disk st)"
    by (auto simp add: rmSync_recursive_def split: option.splits)
  have "q \<noteq> []" using assms(2) by (auto simp add: storagePath_def)
  then show ?thesis using Inr d assms(2) by (simp add: removeStorage_def lookup_drop_tree)
qed

lemma cleanUpAndMoveFiles_gone:
  assumes "well_formed (disk st)"
    and "cleanUpAndMoveFiles parse clock removeStorageOnly st = Returns st'"
    and "prefix storagePath q"
  shows "lookup (disk st') q = None"
proof (cases removeStorageOnly)
  case True
  then show ?thesis
    using assms removeStorage_gone by (auto simp add: cleanUpAndMoveFiles_def)
next
  case False
  obtain d files where
    d: "ensure_destination (disk st) = Inr d"
    and files: "readdirSync d directoryPath = Inr files"
    and st': "st' = removeStorage ''Deleted the storage folder after moving valid files.''
                (curateFiles parse clock 0 files (st\<lparr>disk := d\<rparr>))"
    using assms(2) False
    by (auto simp add: cleanUpAndMoveFiles_def Let_def split: sum.splits)
  have "well_formed d"
    using d assms(1) mkdirSync_recursive_well_formed
    by (auto simp add: ensure_destination_def split: if_splits)
  then have "well_formed (disk (curateFiles parse clock 0 files (st\<lparr>disk := d\<rparr>)))"
    by (simp add: curateFiles_well_formed)
  then show ?thesis
    unfolding st' using removeStorage_gone assms(3) by simp
qed

section \<open>The run as a whole\<close>

lemma removeStorage_outside:
  "drop_tree storagePath (disk (removeStorage msg st)) = drop_tree storagePath (disk st)"
  by (auto simp add: removeStorage_def rmSync_recursive_def drop_tree_def
      split: sum.splits option.splits)

lemma removeStorage_requests [simp]: "requests (removeStorage msg st) = requests st"
  by (auto simp add: removeStorage_def split: sum.splits)

lemma drop_tree_lookup:
  assumes "drop_tree p d' = drop_tree p d" and "\<not> prefix p q"
  shows "lookup d' q = lookup d q"
proof (cases "q = []")
  case True
  then show ?thesis by simp
next
  case False
  have "lookup (drop_tree p d') q = lookup (drop_tree p d) q"
    using assms(1) by simp
  then show ?thesis using False assms(2) by (simp add: lookup_drop_tree)
qed

lemma removeStorage_absent: "lookup (disk (removeStorage msg st)) storagePath = None"
  by (auto simp add: removeStorage_def rmSync_recursive_def lookup_drop_tree storagePath_def
      split: sum.splits option.splits)

lemma enqueue_count:
  "fst (checkRobotsAndEnqueue net apis st) = length (filter (policy_allows net) apis)"
  using fold_checkOne [of net apis 0 st] by (simp add: checkRobotsAndEnqueue_def)

lemma enqueue_requests:
  "requests (snd (checkRobotsAndEnqueue net apis st))
     = requests st @ map task (filter (policy_allows net) apis)"
  using fold_checkOne [of net apis 0 st] by (simp add: checkRobotsAndEnqueue_def)

lemma enqueue_disk: "disk (snd (checkRobotsAndEnqueue net apis st)) = disk st"
  by (simp add: checkRobotsAndEnqueue_def fold_checkOne_disk)

lemma scrapeDocs_zero:
  assumes "fst (checkRobotsAndEnqueue net apis s) = 0"
  shows "scrapeDocs net parse clock run (Inr apis) st =
     Returns (removeStorage ''Deleted the storage folder since no requests were enqueued.''
       (emit LOG ''No requests were enqueued. Cleaning up the storage folder.''
         (snd (checkRobotsAndEnqueue net apis
           (emit LOG (''Loaded '' @ toString (length apis) @ '' API URLs.'') st)))))"
proof -
  let ?st1 = "emit LOG (''Loaded '' @ toString (length apis) @ '' API URLs.'') st"
  have "fst (checkRobotsAndEnqueue net apis ?st1) = 0"
    using assms by (simp add: enqueue_count)
  then show ?thesis
    by (cases "checkRobotsAndEnqueue net apis ?st1")
      (simp add: scrapeDocs_def cleanUpAndMoveFiles_def Let_def del: toString.simps)
qed





lemma cleanUp_st0:
  "cleanUpAndMoveFiles parse0 clock0 False st0 =
     Returns \<lparr>disk =
       [([''scrapers''], Dir), ([''scrapers'', ''datasets''], Dir),
        ([''scrapers'', ''datasets'', ''Stripe_API.json''], File ''{old}''),
        ([''scrapers'', ''datasets'', ''Stripe_API_110226090507.json''], File ''{stripe}'')],
      console =
        [(LOG, ''File with the same name exists. Moved and renamed: Stripe_API_110226090507.json''),
         (LOG, ''Deleting invalid file: Gone_API.json''),
         (ERROR, ''Error reading or parsing file broken.json: SyntaxError''),
         (LOG, ''Deleted the storage folder after moving valid files.'')],
      requests = []\<rparr>"
  by code_simp

text \<open>
  C7. When the count returned by \<open>checkRobotsAndEnqueue\<close> is 0, \<open>scrapeDocs\<close> returns the
  same state whatever the crawl engine would do (it is not run), and that state differs
  from the initial one only below \<^verbatim>\<open>./storage\<close>: every entry outside it, the dataset
  directory included, is kept as it was, \<^verbatim>\<open>./storage\<close> is absent (whether or not it was
  there before), and no request has been registered.
\<close>

theorem zero_mode_only_removes_storage:
  assumes "fst (checkRobotsAndEnqueue net apis s) = 0"
  shows "\<exists>st'. (\<forall>run. scrapeDocs net parse clock run (Inr apis) st = Returns st')
           \<and> drop_tree storagePath (disk st') = drop_tree storagePath (disk st)
           \<and> (\<forall>q. \<not> prefix storagePath q \<longrightarrow> lookup (disk st') q = lookup (disk st) q)
           \<and> lookup (disk st') storagePath = None
           \<and> requests st' = requests st"
proof -
  let ?st1 = "emit LOG (''Loaded '' @ toString (length apis) @ '' API URLs.'') st"
  let ?st2 = "snd (checkRobotsAndEnqueue net apis ?st1)"
  let ?st' = "removeStorage ''Deleted the storage folder since no requests were enqueued.''
       (emit LOG ''No requests were enqueued. Cleaning up the storage folder.'' ?st2)"
  have run: "\<forall>run. scrapeDocs net parse clock run (Inr apis) st = Returns ?st'"
    using scrapeDocs_zero [OF assms] by blast
  have "filter (policy_allows net) apis = []"
    using assms by (simp add: enqueue_count)
  then have req: "requests ?st' = requests st"
    by (simp add: enqueue_requests del: toString.simps)
  have out: "drop_tree storagePath (disk ?st') = drop_tree storagePath (disk st)"
    by (simp add: removeStorage_outside enqueue_disk del: toString.simps)
  have look: "\<forall>q. \<not> prefix storagePath q \<longrightarrow> lookup (disk ?st') q = lookup (disk st) q"
    using drop_tree_lookup [OF out] by blast
  have gone: "lookup (disk ?st') storagePath = None"
    by (rule removeStorage_absent)
  show ?thesis
    using run req out look gone by blast
qed

text \<open>A catalog whose only row is disallowed: the count is 0, the run returns, the record
  in the dataset directory is as before and the storage folder is gone.\<close>

theorem zero_mode_only_removes_storage_witness:
  "fst (checkRobotsAndEnqueue net2 [apiA] state0) = 0
   \<and> (\<exists>st'. scrapeDocs net2 parse0 clock0 run0 (Inr [apiA]) st0 = Returns st'
          \<and> lookup (disk st') (destinationPath @ [''Stripe_API.json'']) = Some (File ''{old}'')
          \<and> lookup (disk st') storagePath = None)"
proof -
  have z: "fst (checkRobotsAndEnqueue net2 [apiA] state0) = 0"
    by (simp add: enqueue_count policy_allows_apiA)
  obtain st' where r: "\<forall>run. scrapeDocs net2 parse0 clock0 run (Inr [apiA]) st0 = Returns st'"
    and keep: "\<forall>q. \<not> prefix storagePath q \<longrightarrow> lookup (disk st') q = lookup (disk st0) q"
    and gone: "lookup (disk st') storagePath = None"
    using zero_mode_only_removes_storage [OF z, of parse0 clock0 st0] by blast
  have "\<not> prefix storagePath (destinationPath @ [''Stripe_API.json''])"
    by (simp add: storagePath_def destinationPath_def)
  moreover have "lookup (disk st0) (destinationPath @ [''Stripe_API.json'']) = Some (File ''{old}'')"
    by code_simp
  ultimately have "lookup (disk st') (destinationPath @ [''Stripe_API.json'']) = Some (File ''{old}'')"
    using keep by simp
  then show ?thesis using z r gone by blast
qed




text \<open>A call in normal mode on a disk without staging directory does not return: the
  \<^verbatim>\<open>readdirSync\<close> of line 101 throws outside any \<^verbatim>\<open>try\<close>, and the storage folder stays.\<close>

lemma normal_mode_without_staging_throws:
  "cleanUpAndMoveFiles parse0 clock0 False st1 = Throws (Errno ENOENT) st1
   \<and> lookup (disk st1) storagePath = Some Dir"
  by code_simp


section \<open>What one round of the loop leaves alone\<close>

lemma renameSync_lookup:
  assumes "renameSync d p q = Inr d'" and "r \<noteq> p" and "r \<noteq> q"
  shows "lookup d' r = lookup d r"
proof (cases "r = []")
  case True
  then show ?thesis by simp
next
  case False
  obtain c where p: "lookup d p = Some (File c)"
    using assms(1) by (auto simp add: renameSync_def split: option.splits node.splits)
  have par: "lookup d (butlast q) = Some Dir"
    using assms(1) p by (auto simp add: renameSync_def split: option.splits node.splits)
  have q: "lookup d q \<noteq> Some Dir"
    using assms(1) p par by (auto simp add: renameSync_def split: if_splits)
  then have qne: "q \<noteq> []" by auto
  have "d' = d \<or> d' = put_entry q (File c) (drop_entry p d)"
    using assms(1) p par q by (auto simp add: renameSync_def split: if_splits)
  then show ?thesis
    using assms(2,3) False qne by (auto simp add: lookup_put_entry lookup_drop_entry)
qed


lemma tryFile_frame:
  assumes "q \<noteq> directoryPath @ [file]" and "\<forall>x. q \<noteq> destinationPath @ [x]"
  shows "lookup (disk (state_of (tryFile parse now file st))) q = lookup (disk st) q"
proof (cases "q = []")
  case True
  then show ?thesis by simp
next
  case False
  show ?thesis
    using tryFile_disk_cases [of parse now "file" st] assms False
      renameSync_lookup [of "disk st" "directoryPath @ [file]" _ _ q]
    by (auto simp add: lookup_drop_entry)
qed

lemma curateFile_frame:
  assumes "q \<noteq> directoryPath @ [file]" and "\<forall>x. q \<noteq> destinationPath @ [x]"
  shows "lookup (disk (curateFile parse now file st)) q = lookup (disk st) q"
  using tryFile_frame [OF assms] by (simp add: curateFile_disk)


lemma curateFiles_invariant:
  assumes "\<And>f i s. f \<in> set files \<Longrightarrow> P s \<Longrightarrow> P (curateFile parse (clock i) f s)"
    and "P st"
  shows "P (curateFiles parse clock i files st)"
  using assms
proof (induction files arbitrary: i st)
  case Nil
  then show ?case by simp
next
  case (Cons f files)
  have "P (curateFile parse (clock i) f st)"
    using Cons.prems by simp
  then show ?case
    using Cons.IH [of "curateFile parse (clock i) f st" "Suc i"] Cons.prems(1) by simp
qed


lemma staging_not_destination: "directoryPath @ [f] \<noteq> destinationPath @ [x]"
  by (simp add: directoryPath_def destinationPath_def)


lemma cleanUp_normal_Returns:
  assumes "cleanUpAndMoveFiles parse clock False st = Returns st'"
  shows "\<exists>d files. ensure_destination (disk st) = Inr d
           \<and> readdirSync d directoryPath = Inr files
           \<and> st' = removeStorage ''Deleted the storage folder after moving valid files.''
                     (curateFiles parse clock 0 files (st\<lparr>disk := d\<rparr>))"
  using assms
  by (auto simp add: cleanUpAndMoveFiles_def Let_def split: sum.splits)

lemma ensure_destination_lookup:
  assumes "ensure_destination d = Inr d'" and "lookup d q \<noteq> None"
  shows "lookup d' q = lookup d q"
  using assms
  by (auto simp add: ensure_destination_def mkdirSync_recursive_def lookup_mkdir_all
      split: if_splits)

lemma ensure_destination_frame:
  assumes "ensure_destination d = Inr d'" and "\<not> prefix q destinationPath"
  shows "lookup d' q = lookup d q"
  using assms
  by (auto simp add: ensure_destination_def mkdirSync_recursive_def lookup_mkdir_all
      in_set_prefixes split: if_splits)

lemma ensure_destination_well_formed:
  assumes "ensure_destination d = Inr d'" and "well_formed d"
  shows "well_formed d'"
  using assms mkdirSync_recursive_well_formed
  by (auto simp add: ensure_destination_def split: if_splits)

lemma tryFile_read_error:
  assumes "lookup (disk st) (directoryPath @ [file]) = Some (File c)"
    and "read_error parse c = Some e"
  shows "tryFile parse now file st = Throws e st"
proof -
  have rd: "readFileSync (disk st) (directoryPath @ [file]) = Inr c"
    using assms(1) by (simp add: readFileSync_Inr)
  show ?thesis
  proof (cases "parse c")
    case None
    then show ?thesis using rd assms(2) by (simp add: tryFile_def read_error_def)
  next
    case (Some data)
    then show ?thesis
      using rd assms(2)
      by (cases "isInvalid data") (simp_all add: tryFile_def read_error_def)
  qed
qed

lemma curateFile_read_error:
  assumes "suffix ''.json'' file"
    and "lookup (disk st) (directoryPath @ [file]) = Some (File c)"
    and "read_error parse c = Some e"
  shows "curateFile parse now file st =
     emit ERROR (''Error reading or parsing file '' @ file @ '': '' @ message e) st"
  using assms(1) tryFile_read_error [OF assms(2,3)] by (simp add: curateFile_def)

lemma curateFile_not_json: "\<not> suffix ''.json'' file \<Longrightarrow> curateFile parse now file st = st"
  by (simp add: curateFile_def)

lemma curateFiles_keeps_unreadable:
  assumes "suffix ''.json'' file"
    and "lookup (disk st) (directoryPath @ [file]) = Some (File c)"
    and "read_error parse c = Some e"
  shows "lookup (disk (curateFiles parse clock i files st)) (directoryPath @ [file])
           = Some (File c)"
proof -
  let ?P = "\<lambda>s::state. lookup (disk s) (directoryPath @ [file]) = Some (File c)"
  have "?P (curateFiles parse clock i files st)"
  proof (rule curateFiles_invariant [where P = ?P])
    fix f j s assume P: "?P s"
    show "?P (curateFile parse (clock j) f s)"
    proof (cases "f = file")
      case True
      then show ?thesis
        using curateFile_read_error [OF assms(1) P assms(3)] P by simp
    next
      case False
      then show ?thesis
        using P curateFile_frame [of "directoryPath @ [file]" f parse "clock j" s]
          staging_not_destination
        by auto
    qed
  qed (rule assms(2))
  then show ?thesis .
qed

lemma curateFiles_keeps_not_json:
  assumes "\<not> suffix ''.json'' file"
  shows "lookup (disk (curateFiles parse clock i files st)) (directoryPath @ [file])
           = lookup (disk st) (directoryPath @ [file])"
proof -
  let ?P = "\<lambda>s::state. lookup (disk s) (directoryPath @ [file])
                = lookup (disk st) (directoryPath @ [file])"
  have "?P (curateFiles parse clock i files st)"
  proof (rule curateFiles_invariant [where P = ?P])
    fix f j s assume P: "?P s"
    show "?P (curateFile parse (clock j) f s)"
    proof (cases "f = file")
      case True
      then show ?thesis
        using curateFile_not_json [OF assms] P by simp
    next
      case False
      then show ?thesis
        using P curateFile_frame [of "directoryPath @ [file]" f parse "clock j" s]
          staging_not_destination
        by auto
    qed
  qed simp
  then show ?thesis .
qed

lemma removeStorage_present:
  assumes "lookup (disk st) storagePath \<noteq> None"
  shows "removeStorage msg st = emit LOG msg (st\<lparr>disk := drop_tree storagePath (disk st)\<rparr>)"
  using assms by (auto simp add: removeStorage_def rmSync_recursive_def)

lemma staged_path: "directoryPath @ [f] = storagePath @ [''request_queues'', ''default'', f]"
  by (simp add: directoryPath_def storagePath_def)

text \<open>
  C10. A directory entry whose name does not end in \<^verbatim>\<open>.json\<close> is passed over: its round of
  the loop changes nothing (no read, no validation, no deletion, no move, no console line),
  the entry is still in the staging directory with the same content after the loop,
  whatever other entries the loop handled, and when the call returns it is gone, removed
  together with the storage folder by the final \<^verbatim>\<open>rmSync\<close>.
\<close>

theorem non_json_entries_passed_over:
  assumes "\<not> suffix ''.json'' file" and "well_formed (disk st)"
  shows "curateFile parse now file st = st
       \<and> (\<forall>i files. lookup (disk (curateFiles parse clock i files st)) (directoryPath @ [file])
                      = lookup (disk st) (directoryPath @ [file]))
       \<and> (\<forall>st'. cleanUpAndMoveFiles parse clock False st = Returns st' \<longrightarrow>
            (\<exists>s. st' = removeStorage ''Deleted the storage folder after moving valid files.'' s
                 \<and> lookup (disk s) (directoryPath @ [file])
                     = lookup (disk st) (directoryPath @ [file]))
            \<and> lookup (disk st') (directoryPath @ [file]) = None)"
proof (intro conjI allI impI)
  show "curateFile parse now file st = st"
    using assms(1) by (rule curateFile_not_json)
next
  fix i files
  show "lookup (disk (curateFiles parse clock i files st)) (directoryPath @ [file])
          = lookup (disk st) (directoryPath @ [file])"
    using assms(1) by (rule curateFiles_keeps_not_json)
next
  fix st' assume ret: "cleanUpAndMoveFiles parse clock False st = Returns st'"
  then obtain d files where d: "ensure_destination (disk st) = Inr d"
    and st': "st' = removeStorage ''Deleted the storage folder after moving valid files.''
                     (curateFiles parse clock 0 files (st\<lparr>disk := d\<rparr>))"
    using cleanUp_normal_Returns by blast
  have "\<not> prefix (directoryPath @ [file]) destinationPath"
    by (simp add: directoryPath_def destinationPath_def)
  then have same: "lookup d (directoryPath @ [file]) = lookup (disk st) (directoryPath @ [file])"
    using ensure_destination_frame [OF d] by simp
  have "lookup (disk (curateFiles parse clock 0 files (st\<lparr>disk := d\<rparr>))) (directoryPath @ [file])
          = lookup (disk st) (directoryPath @ [file])"
    using curateFiles_keeps_not_json [OF assms(1), of parse clock 0 files "st\<lparr>disk := d\<rparr>"] same
    by simp
  then show "\<exists>s. st' = removeStorage ''Deleted the storage folder after moving valid files.'' s
                 \<and> lookup (disk s) (directoryPath @ [file])
                     = lookup (disk st) (directoryPath @ [file])"
    using st' by blast
next
  fix st' assume ret: "cleanUpAndMoveFiles parse clock False st = Returns st'"
  have "prefix storagePath (directoryPath @ [file])"
    by (simp add: staged_path)
  then show "lookup (disk st') (directoryPath @ [file]) = None"
    using cleanUpAndMoveFiles_gone [OF assms(2) ret] by blast
qed

theorem non_json_entries_passed_over_witness:
  "\<not> suffix ''.json'' ''notes.txt''
   \<and> well_formed (disk st0)
   \<and> curateFile parse0 (clock0 0) ''notes.txt'' st0 = st0
   \<and> lookup (disk (curateFiles parse0 clock0 0
          [''Stripe_API.json'', ''Gone_API.json'', ''broken.json'', ''notes.txt''] st0))
        (directoryPath @ [''notes.txt'']) = Some (File ''hello'')
   \<and> (\<exists>st'. cleanUpAndMoveFiles parse0 clock0 False st0 = Returns st'
          \<and> lookup (disk st') (directoryPath @ [''notes.txt'']) = None)"
proof -
  have a: "\<not> suffix ''.json'' ''notes.txt''"
    by code_simp
  have w: "well_formed (disk st0)"
    by code_simp
  have l: "lookup (disk st0) (directoryPath @ [''notes.txt'']) = Some (File ''hello'')"
    by code_simp
  obtain st' where r: "cleanUpAndMoveFiles parse0 clock0 False st0 = Returns st'"
    using cleanUp_st0 by blast
  have c1: "curateFile parse0 (clock0 0) ''notes.txt'' st0 = st0"
    and c2: "\<forall>i files. lookup (disk (curateFiles parse0 clock0 i files st0))
                 (directoryPath @ [''notes.txt''])
               = lookup (disk st0) (directoryPath @ [''notes.txt''])"
    and c3: "\<forall>st'. cleanUpAndMoveFiles parse0 clock0 False st0 = Returns st' \<longrightarrow>
               lookup (disk st') (directoryPath @ [''notes.txt'']) = None"
    using non_json_entries_passed_over [OF a w, of parse0 "clock0 0" clock0] by blast+
  have "lookup (disk (curateFiles parse0 clock0 0
          [''Stripe_API.json'', ''Gone_API.json'', ''broken.json'', ''notes.txt''] st0))
        (directoryPath @ [''notes.txt'']) = Some (File ''hello'')"
    using c2 l by (simp only:)
  moreover have "lookup (disk st') (directoryPath @ [''notes.txt'']) = None"
    using c3 r by blast
  ultimately show ?thesis
    using a w c1 r by blast
qed


text \<open>
  C8 (amended). A staged \<^verbatim>\<open>.json\<close> file whose content does not read as a record is logged
  as an error and left where it is, and the loop goes on with the remaining entries; the
  file is still in the staging directory after the loop. The removal of the storage folder
  that follows does not fail on it: on a well-formed disk, when the call returns, the last
  console line is the success message of the removal and nothing at or below
  \<^verbatim>\<open>./storage\<close> is left, the unread file included.
\<close>

theorem unreadable_file_left_then_removed:
  assumes "suffix ''.json'' file"
    and "lookup (disk st) (directoryPath @ [file]) = Some (File c)"
    and "read_error parse c = Some e"
    and "well_formed (disk st)"
  shows "curateFiles parse clock i (file # files) st =
           curateFiles parse clock (Suc i) files
             (emit ERROR (''Error reading or parsing file '' @ file @ '': '' @ message e) st)
       \<and> (\<forall>j others. lookup (disk (curateFiles parse clock j others st)) (directoryPath @ [file])
                      = Some (File c))
       \<and> (\<forall>st'. cleanUpAndMoveFiles parse clock False st = Returns st' \<longrightarrow>
            last (console st') = (LOG, ''Deleted the storage folder after moving valid files.'')
            \<and> (\<forall>q. prefix storagePath q \<longrightarrow> lookup (disk st') q = None))"
proof (intro conjI allI impI)
  show "curateFiles parse clock i (file # files) st =
           curateFiles parse clock (Suc i) files
             (emit ERROR (''Error reading or parsing file '' @ file @ '': '' @ message e) st)"
    using curateFile_read_error [OF assms(1,2,3)] by simp
next
  fix j others
  show "lookup (disk (curateFiles parse clock j others st)) (directoryPath @ [file]) = Some (File c)"
    using assms(1,2,3) by (rule curateFiles_keeps_unreadable)
next
  fix st' assume ret: "cleanUpAndMoveFiles parse clock False st = Returns st'"
  then obtain d files' where d: "ensure_destination (disk st) = Inr d"
    and st': "st' = removeStorage ''Deleted the storage folder after moving valid files.''
                     (curateFiles parse clock 0 files' (st\<lparr>disk := d\<rparr>))"
    using cleanUp_normal_Returns by blast
  let ?s = "curateFiles parse clock 0 files' (st\<lparr>disk := d\<rparr>)"
  have "lookup d (directoryPath @ [file]) = Some (File c)"
    using ensure_destination_lookup [OF d, of "directoryPath @ [file]"] assms(2) by simp
  then have kept: "lookup (disk ?s) (directoryPath @ [file]) = Some (File c)"
    using curateFiles_keeps_unreadable [OF assms(1) _ assms(3), of "st\<lparr>disk := d\<rparr>"] by simp
  have "well_formed d"
    using ensure_destination_well_formed [OF d assms(4)] .
  then have "well_formed (disk ?s)"
    by (simp add: curateFiles_well_formed)
  then have "lookup (disk ?s) storagePath \<noteq> None"
    using well_formed_above [of "disk ?s" storagePath "[''request_queues'', ''default'', file]"]
      kept
    by (simp add: staged_path)
  then show "last (console st') = (LOG, ''Deleted the storage folder after moving valid files.'')"
    unfolding st' by (simp add: removeStorage_present)
next
  fix st' q
  assume "cleanUpAndMoveFiles parse clock False st = Returns st'" and "prefix storagePath q"
  then show "lookup (disk st') q = None"
    using cleanUpAndMoveFiles_gone [OF assms(4)] by blast
qed

theorem unreadable_file_left_then_removed_witness:
  "suffix ''.json'' ''broken.json''
   \<and> lookup (disk st0) (directoryPath @ [''broken.json'']) = Some (File ''not json'')
   \<and> read_error parse0 ''not json'' = Some SyntaxError
   \<and> well_formed (disk st0)
   \<and> lookup (disk (curateFiles parse0 clock0 0
          [''Stripe_API.json'', ''Gone_API.json'', ''broken.json'', ''notes.txt''] st0))
        (directoryPath @ [''broken.json'']) = Some (File ''not json'')
   \<and> (\<exists>st'. cleanUpAndMoveFiles parse0 clock0 False st0 = Returns st'
          \<and> last (console st') = (LOG, ''Deleted the storage folder after moving valid files.'')
          \<and> lookup (disk st') storagePath = None)"
proof -
  have a: "suffix ''.json'' ''broken.json''"
    by code_simp
  have l: "lookup (disk st0) (directoryPath @ [''broken.json'']) = Some (File ''not json'')"
    by code_simp
  have e: "read_error parse0 ''not json'' = Some SyntaxError"
    by code_simp
  have w: "well_formed (disk st0)"
    by code_simp
  obtain st' where r: "cleanUpAndMoveFiles parse0 clock0 False st0 = Returns st'"
    using cleanUp_st0 by blast
  have p: "prefix storagePath storagePath"
    by simp
  show ?thesis
    using unreadable_file_left_then_removed [OF a l e w, of clock0] a l e w r p
    by blast
qed

text \<open>
  C8 as stated fails: \<^verbatim>\<open>broken.json\<close> does not parse and is left behind by the loop, and
  the removal of the storage folder succeeds all the same. The console has the error line
  of the file and then the success line of the removal, no error of the removal, and the
  disk has nothing below \<^verbatim>\<open>./storage\<close>.
\<close>

theorem removal_succeeds_with_leftover_counterexample:
  "read_error parse0 ''not json'' = Some SyntaxError
   \<and> lookup (disk st0) (directoryPath @ [''broken.json'']) = Some (File ''not json'')
   \<and> cleanUpAndMoveFiles parse0 clock0 False st0 =
     Returns \<lparr>disk =
       [([''scrapers''], Dir), ([''scrapers'', ''datasets''], Dir),
        ([''scrapers'', ''datasets'', ''Stripe_API.json''], File ''{old}''),
        ([''scrapers'', ''datasets'', ''Stripe_API_110226090507.json''], File ''{stripe}'')],
      console =
        [(LOG, ''File with the same name exists. Moved and renamed: Stripe_API_110226090507.json''),
         (LOG, ''Deleting invalid file: Gone_API.json''),
         (ERROR, ''Error reading or parsing file broken.json: SyntaxError''),
         (LOG, ''Deleted the storage folder after moving valid files.'')],
      requests = []\<rparr>"
  by code_simp

section \<open>Validity, names and the timestamp\<close>





lemma digit_char_mod: "digit_char (n mod 10) = digit_char n"
  by (simp add: digit_char_def)
















section \<open>What one round of the loop does to a record\<close>












section \<open>The request handler\<close>








end
